theory Spec2Isabelle
  imports Main
begin

section \<open>Data model of package sipnet (listen.go)\<close>

text \<open>
  Errors are values. \<open>ErrClosed\<close> and \<open>ErrInvalidBranch\<close> are the two package
  variables of listen.go; \<open>ErrOther\<close> stands for every error value produced outside
  this file (package net, the message codec).
\<close>

datatype error = ErrClosed | ErrInvalidBranch | ErrOther string

text \<open>
  \<open>time.Time\<close> readings are nanosecond counts; \<open>time.Duration\<close> is a signed 64-bit
  nanosecond count and \<open>Time.Sub\<close> saturates at its bounds.
\<close>

type_synonym time = int
type_synonym duration = int

definition Second :: duration where
  "Second = 1000000000"

definition maxDuration :: duration where
  "maxDuration = 2 ^ 63 - 1"

definition minDuration :: duration where
  "minDuration = - (2 ^ 63)"

definition Sub :: "time \<Rightarrow> time \<Rightarrow> duration" where
  "Sub t u = (if t - u > maxDuration then maxDuration
              else if t - u < minDuration then minDuration
              else t - u)"

text \<open>
  Modelled from the spec: the types \<open>Request\<close>, \<open>Conn\<close> and \<open>Via\<close> and the
  accessors \<open>Header.Get\<close> and \<open>Arguments.Get\<close> are declared outside listen.go.
  A header set is a list of key/value pairs whose \<open>Get\<close> yields the empty string
  for an absent key; a connection is known by an identifier.
\<close>

type_synonym Values = "(string \<times> string) list"

definition Get :: "Values \<Rightarrow> string \<Rightarrow> string" where
  "Get h k = (case map_of h k of None \<Rightarrow> [] | Some v \<Rightarrow> v)"

record Request =
  Header :: Values
  Body :: string

record Via =
  Arguments :: Values

type_synonym Conn = nat

text \<open>\<open>requestPackage\<close>: the pointers may be nil, the error may be nil.\<close>

record requestPackage =
  conn :: "Conn option"
  req :: "Request option"
  err :: "error option"

text \<open>
  A socket of package net, seen through the one operation listen.go applies to it
  after binding: \<open>Close\<close>. The socket counts the calls it has received, and
  \<open>close_result s n\<close> is the error value its \<open>n\<close>-th call (from 0) reports.
\<close>

record socket =
  close_calls :: nat
  close_result :: "nat \<Rightarrow> error option"

definition sock_Close :: "socket \<Rightarrow> error option \<times> socket" where
  "sock_Close s = (close_result s (close_calls s), s\<lparr>close_calls := Suc (close_calls s)\<rparr>)"

datatype Mutex = Mutex

datatype Chan = Chan

record Listener =
  tcpListener :: socket
  udpListener :: socket
  closed :: bool
  requestChannel :: "Chan option"
  receivedBranches :: "string \<rightharpoonup> time"
  branchMutex :: "Mutex option"
  udpPool :: "(string \<rightharpoonup> Conn) option"
  udpPoolMutex :: "Mutex option"

section \<open>AcceptRequest\<close>

text \<open>
  What a call can do: return its triple, stay blocked on the channel because no
  sender ever comes, or panic on a nil pointer.
\<close>

datatype outcome =
  Returned "Request option" "Conn option" "error option"
  | Blocked
  | Panicked

text \<open>
  An item as the receive statement obtains it: the package together with the
  reading \<open>time.Now()\<close> gives while that item is processed.
\<close>

record arrival =
  now :: time
  pkg :: requestPackage

definition invalidBranch :: "string \<Rightarrow> bool" where
  "invalidBranch branch \<longleftrightarrow> branch = [] \<or> length branch < 8 \<or> take 7 branch \<noteq> ''z9hG4bK''"

text \<open>
  The loop of \<open>AcceptRequest\<close>, over the items that senders offer on the request
  channel, in the order they are received. \<open>ParseVia\<close> is not part of listen.go and
  is a parameter. The result carries the listener as left by the call and the
  items not yet received.
\<close>

fun AcceptRequest ::
  "(string \<Rightarrow> error + Via) \<Rightarrow> Listener \<Rightarrow> arrival list \<Rightarrow> outcome \<times> Listener \<times> arrival list" where
  "AcceptRequest ParseVia l [] =
     (if closed l then (Returned None None (Some ErrClosed), l, [])
      else (Blocked, l, []))"
| "AcceptRequest ParseVia l (a # q) =
     (if closed l then (Returned None None (Some ErrClosed), l, a # q)
      else
        let resp = pkg a in
        (case err resp of
           Some e \<Rightarrow> (Returned (req resp) (conn resp) (Some e), l, q)
         | None \<Rightarrow>
            (case req resp of
               None \<Rightarrow> (Panicked, l, q)
             | Some r \<Rightarrow>
                (case ParseVia (Get (Header r) ''Via'') of
                   Inl e \<Rightarrow> (Returned (req resp) (conn resp) (Some e), l, q)
                 | Inr via \<Rightarrow>
                    let branch = Get (Arguments via) ''branch'' in
                    if invalidBranch branch
                    then (Returned (req resp) (conn resp) (Some ErrInvalidBranch), l, q)
                    else
                      (case branchMutex l of
                         None \<Rightarrow> (Panicked, l, q)
                       | Some _ \<Rightarrow>
                          (case receivedBranches l branch of
                             Some _ \<Rightarrow> AcceptRequest ParseVia l q
                           | None \<Rightarrow>
                              (Returned (req resp) (conn resp) (err resp),
                               l\<lparr>receivedBranches := (receivedBranches l)(branch \<mapsto> now a)\<rparr>,
                               q)))))))"

section \<open>Close\<close>

text \<open>
  The drain loop of \<open>Close\<close>: a non-blocking receive for as long as some sender
  is waiting on the request channel. Every waiting package is taken and dropped.
\<close>

fun closeLoop :: "requestPackage list \<Rightarrow> requestPackage list" where
  "closeLoop [] = []"
| "closeLoop (p # waiting) = closeLoop waiting"

text \<open>
  \<open>Close\<close>, given the senders waiting on the channel when it is called. It returns
  its error value, the listener as left, and the senders still waiting.
\<close>

definition Close ::
  "Listener \<Rightarrow> requestPackage list \<Rightarrow> error option \<times> Listener \<times> requestPackage list" where
  "Close l waiting =
     (let l1 = l\<lparr>closed := True\<rparr>;
          (err1, tcp') = sock_Close (tcpListener l1);
          l2 = l1\<lparr>tcpListener := tcp'\<rparr>;
          (err2, udp') = sock_Close (udpListener l2);
          l3 = l2\<lparr>udpListener := udp'\<rparr>
      in ((if err1 \<noteq> None then err1 else err2), l3, closeLoop waiting))"

section \<open>branchJanitor\<close>

text \<open>
  One pass over the branch map. \<open>time.Now()\<close> is read once per entry, so the
  pass takes the reading made at each branch: \<open>clock branch\<close>.
\<close>

definition sweep :: "(string \<Rightarrow> time) \<Rightarrow> (string \<rightharpoonup> time) \<Rightarrow> (string \<rightharpoonup> time)" where
  "sweep clock m =
     (\<lambda>branch. case m branch of
        None \<Rightarrow> None
      | Some t \<Rightarrow> if Sub (clock branch) t > 30 * Second then None else Some t)"

text \<open>
  The janitor's loop over its wake-ups (one every ten seconds), each with the
  clock of its pass. It ends asleep when the wake-ups are used up, returns once
  the listener is closed, and panics on a nil mutex.
\<close>

datatype janitor = Asleep | Gone | Crashed

fun branchJanitor :: "Listener \<Rightarrow> (string \<Rightarrow> time) list \<Rightarrow> Listener \<times> janitor" where
  "branchJanitor l [] = (l, Asleep)"
| "branchJanitor l (clock # wakes) =
     (if closed l then (l, Gone)
      else (case branchMutex l of
              None \<Rightarrow> (l, Crashed)
            | Some _ \<Rightarrow>
                branchJanitor (l\<lparr>receivedBranches := sweep clock (receivedBranches l)\<rparr>) wakes))"

section \<open>Listen\<close>

text \<open>
  \<open>Listen\<close>, given what \<open>net.Listen\<close>, \<open>net.ResolveUDPAddr\<close> and \<open>net.ListenUDP\<close>
  answer. The second component is the TCP socket as \<open>Listen\<close> leaves it when it
  fails after having opened it.
\<close>

definition Listen ::
  "(error + socket) \<Rightarrow> (error + string) \<Rightarrow> (error + socket) \<Rightarrow> (error + Listener) \<times> socket option" where
  "Listen net_Listen net_ResolveUDPAddr net_ListenUDP =
     (case net_Listen of
        Inl e \<Rightarrow> (Inl e, None)
      | Inr tcp \<Rightarrow>
         (case net_ResolveUDPAddr of
            Inl e \<Rightarrow> (Inl e, Some (snd (sock_Close tcp)))
          | Inr udpAddr \<Rightarrow>
             (case net_ListenUDP of
                Inl e \<Rightarrow> (Inl e, Some (snd (sock_Close tcp)))
              | Inr udp \<Rightarrow>
                 (Inr \<lparr>tcpListener = tcp,
                        udpListener = udp,
                        closed = False,
                        requestChannel = Some Chan,
                        receivedBranches = Map.empty,
                        branchMutex = Some Mutex,
                        udpPool = None,
                        udpPoolMutex = None\<rparr>,
                  None))))"

section \<open>The transport loops\<close>

text \<open>
  How a transport loop ends, when it ends: the listener at that point, the
  packages it has sent on the request channel, the socket results it has not
  consumed, and whether it ends by a panic.
\<close>

record 'a loop_exit =
  at_exit :: Listener
  sent :: "requestPackage list"
  unread :: "'a list"
  panicking :: bool

text \<open>
  The accept loop, over the answers of \<open>Accept\<close>. \<open>registerTCPConn\<close> is not part
  of listen.go and is a parameter; \<open>None\<close> is a panic inside it. The channel is
  unbuffered: the send of the error package completes only if some goroutine
  receives (\<open>receiver\<close>); without one the loop stays in the send and never ends
  (\<open>None\<close>), as it does in \<open>Accept\<close> when the socket answers no more.
\<close>

fun acceptLoop ::
  "(Listener \<Rightarrow> Conn \<Rightarrow> Listener option) \<Rightarrow> bool \<Rightarrow> Listener \<Rightarrow> (error + Conn) list
     \<Rightarrow> (error + Conn) loop_exit option" where
  "acceptLoop registerTCPConn receiver l [] = None"
| "acceptLoop registerTCPConn receiver l (Inl e # rest) =
     (if closed l
      then Some \<lparr>at_exit = l, sent = [], unread = rest, panicking = False\<rparr>
      else if receiver
      then Some \<lparr>at_exit = l, sent = [\<lparr>conn = None, req = None, err = Some e\<rparr>],
                  unread = rest, panicking = False\<rparr>
      else None)"
| "acceptLoop registerTCPConn receiver l (Inr c # rest) =
     (case registerTCPConn l c of
        None \<Rightarrow> Some \<lparr>at_exit = l, sent = [], unread = rest, panicking = True\<rparr>
      | Some l' \<Rightarrow> acceptLoop registerTCPConn receiver l' rest)"

text \<open>
  \<open>handleTCPListening\<close>: the loop, then the deferred \<open>Close\<close>, which runs on
  return and on panic alike.
\<close>

definition handleTCPListening ::
  "(Listener \<Rightarrow> Conn \<Rightarrow> Listener option) \<Rightarrow> bool \<Rightarrow> Listener \<Rightarrow> (error + Conn) list
     \<Rightarrow> requestPackage list \<Rightarrow> (error + Conn) loop_exit option" where
  "handleTCPListening registerTCPConn receiver l accepts waiting =
     (case acceptLoop registerTCPConn receiver l accepts of
        None \<Rightarrow> None
      | Some x \<Rightarrow> Some (x\<lparr>at_exit := fst (snd (Close (at_exit x) waiting))\<rparr>))"

text \<open>
  A datagram as \<open>ReadFrom\<close> reports it: the byte count, the sender's address and
  the buffer of 65535 bytes it has filled.
\<close>

record datagram =
  n :: nat
  addr :: string
  data :: "nat list"

text \<open>
  The receive loop, over the answers of \<open>ReadFrom\<close>. The call
  \<open>getUDPConnFromPool(addr).writeReceivedUDP(data[:n])\<close> is outside listen.go and is
  the parameter \<open>poolWrite\<close>; \<open>None\<close> is a panic inside it.
\<close>

fun receiveLoop ::
  "(Listener \<Rightarrow> string \<Rightarrow> nat list \<Rightarrow> Listener option) \<Rightarrow> bool \<Rightarrow> Listener
     \<Rightarrow> (error + datagram) list \<Rightarrow> (error + datagram) loop_exit option" where
  "receiveLoop poolWrite receiver l [] = None"
| "receiveLoop poolWrite receiver l (Inl e # rest) =
     (if closed l
      then Some \<lparr>at_exit = l, sent = [], unread = rest, panicking = False\<rparr>
      else if receiver
      then Some \<lparr>at_exit = l, sent = [\<lparr>conn = None, req = None, err = Some e\<rparr>],
                  unread = rest, panicking = False\<rparr>
      else None)"
| "receiveLoop poolWrite receiver l (Inr d # rest) =
     (case poolWrite l (addr d) (take (n d) (data d)) of
        None \<Rightarrow> Some \<lparr>at_exit = l, sent = [], unread = rest, panicking = True\<rparr>
      | Some l' \<Rightarrow> receiveLoop poolWrite receiver l' rest)"

definition handleUDPListening ::
  "(Listener \<Rightarrow> string \<Rightarrow> nat list \<Rightarrow> Listener option) \<Rightarrow> bool \<Rightarrow> Listener
     \<Rightarrow> (error + datagram) list \<Rightarrow> requestPackage list \<Rightarrow> (error + datagram) loop_exit option" where
  "handleUDPListening poolWrite receiver l reads waiting =
     (case receiveLoop poolWrite receiver l reads of
        None \<Rightarrow> None
      | Some x \<Rightarrow> Some (x\<lparr>at_exit := fst (snd (Close (at_exit x) waiting))\<rparr>))"

text \<open>
  The listener a loop has reached after a run of successful answers: the
  connections registered, the datagrams written, one after the other. \<open>None\<close> when
  one of these calls panics.
\<close>

fun registerAll ::
  "(Listener \<Rightarrow> Conn \<Rightarrow> Listener option) \<Rightarrow> Listener \<Rightarrow> Conn list \<Rightarrow> Listener option" where
  "registerAll registerTCPConn l [] = Some l"
| "registerAll registerTCPConn l (c # cs) =
     (case registerTCPConn l c of
        None \<Rightarrow> None
      | Some l' \<Rightarrow> registerAll registerTCPConn l' cs)"

fun writeAll ::
  "(Listener \<Rightarrow> string \<Rightarrow> nat list \<Rightarrow> Listener option) \<Rightarrow> Listener \<Rightarrow> datagram list
     \<Rightarrow> Listener option" where
  "writeAll poolWrite l [] = Some l"
| "writeAll poolWrite l (d # ds) =
     (case poolWrite l (addr d) (take (n d) (data d)) of
        None \<Rightarrow> None
      | Some l' \<Rightarrow> writeAll poolWrite l' ds)"

section \<open>ParseVia\<close>

text \<open>
  Modelled from the spec: \<open>ParseVia\<close> belongs to the message codec and is not in
  listen.go. The spec gives its interface, \<open>ParseVia(string) -> (Via{branch, ...}, error)\<close>,
  and what a \<open>Via\<close> header that is absent or malformed ends in: the "invalid branch
  parameter" failure (4.4, step 4). The grammar of the header is not described; it
  is the parameter \<open>grammar\<close>, which yields the parsed header or nothing.
\<close>

definition ParseVia_spec :: "(string \<Rightarrow> Via option) \<Rightarrow> string \<Rightarrow> error + Via" where
  "ParseVia_spec grammar s =
     (if s = [] then Inl ErrInvalidBranch
      else (case grammar s of
              None \<Rightarrow> Inl ErrInvalidBranch
            | Some via \<Rightarrow> Inr via))"

section \<open>Items that carry a valid branch\<close>

text \<open>
  The branch that \<open>AcceptRequest\<close> reads from an item, when the item is a
  request (nil error, non-nil request) whose \<open>Via\<close> header parses and whose
  branch argument passes the check of the code.
\<close>

definition branchOf :: "(string \<Rightarrow> error + Via) \<Rightarrow> arrival \<Rightarrow> string option" where
  "branchOf ParseVia a =
     (case err (pkg a) of
        Some e \<Rightarrow> None
      | None \<Rightarrow>
         (case req (pkg a) of
            None \<Rightarrow> None
          | Some r \<Rightarrow>
             (case ParseVia (Get (Header r) ''Via'') of
                Inl e \<Rightarrow> None
              | Inr via \<Rightarrow>
                 if invalidBranch (Get (Arguments via) ''branch'') then None
                 else Some (Get (Arguments via) ''branch''))))"

section \<open>Concrete values\<close>

text \<open>
  A socket as package net makes it: the first \<open>Close\<close> succeeds, and every later
  one reports that the socket is closed already.
\<close>

definition ex_socket :: socket where
  "ex_socket = \<lparr>close_calls = 0,
     close_result = (\<lambda>k. if k = 0 then None else Some (ErrOther ''use of closed network connection''))\<rparr>"

definition ex_listener :: Listener where
  "ex_listener = \<lparr>tcpListener = ex_socket, udpListener = ex_socket, closed = False,
     requestChannel = Some Chan, receivedBranches = Map.empty, branchMutex = Some Mutex,
     udpPool = None, udpPoolMutex = None\<rparr>"

definition ex_datagram :: datagram where
  "ex_datagram = \<lparr>n = 3, addr = ''192.0.2.7:5060'', data = [73, 78, 86, 0, 0]\<rparr>"

text \<open>
  A grammar for concrete inputs: the text before the first semicolon is the
  protocol and sender and must not be empty, each further piece is an argument
  \<open>key=value\<close>.
\<close>

fun splitOn :: "char \<Rightarrow> string \<Rightarrow> string list" where
  "splitOn c [] = [[]]"
| "splitOn c (x # xs) =
     (if x = c then [] # splitOn c xs
      else (case splitOn c xs of [] \<Rightarrow> [[x]] | w # ws \<Rightarrow> (x # w) # ws))"

definition ex_grammar :: "string \<Rightarrow> Via option" where
  "ex_grammar s =
     (case splitOn CHR '';'' s of
        [] \<Rightarrow> None
      | sent_by # params \<Rightarrow>
          if sent_by = [] then None
          else Some \<lparr>Arguments =
                 map (\<lambda>p. (takeWhile (\<lambda>c. c \<noteq> CHR ''='') p,
                            drop 1 (dropWhile (\<lambda>c. c \<noteq> CHR ''='') p))) params\<rparr>)"

definition ex_ParseVia :: "string \<Rightarrow> error + Via" where
  "ex_ParseVia = ParseVia_spec ex_grammar"

definition ex_request :: "string \<Rightarrow> Request" where
  "ex_request via = \<lparr>Header = [(''Via'', via), (''CSeq'', ''1 INVITE'')], Body = []\<rparr>"

definition ex_arrival :: "time \<Rightarrow> Conn \<Rightarrow> string \<Rightarrow> arrival" where
  "ex_arrival t c via = \<lparr>now = t, pkg = \<lparr>conn = Some c, req = Some (ex_request via), err = None\<rparr>\<rparr>"

definition ex_via :: string where
  "ex_via = ''SIP/2.0/UDP pc33.example.com;branch=z9hG4bK-abc123''"

definition ex_wakes :: "time list \<Rightarrow> (string \<Rightarrow> time) list" where
  "ex_wakes ts = map (\<lambda>t branch. t * Second) ts"


definition ex_seen :: "time \<Rightarrow> Listener" where
  "ex_seen t = ex_listener\<lparr>receivedBranches := (receivedBranches ex_listener)(''z9hG4bK-abc123'' \<mapsto> t)\<rparr>"

section \<open>Properties of Close\<close>

lemma closed_Close: "closed (fst (snd (Close l waiting)))"
  by (simp add: Close_def sock_Close_def Let_def split: prod.splits)

lemma AcceptRequest_closed:
  "closed l \<Longrightarrow> AcceptRequest ParseVia l q = (Returned None None (Some ErrClosed), l, q)"
  by (cases q) simp_all

text \<open>
  C6. Once \<open>Close\<close> has completed the listener is closed, and a call of
  \<open>AcceptRequest\<close> on it returns \<open>ErrClosed\<close> with nil request and connection
  at once: it receives nothing from the channel (the offered items \<open>q\<close> are all
  still there) and leaves the listener as it is, so the same holds for the call
  after it.
\<close>

theorem AcceptRequest_after_Close:
  "closed (fst (snd (Close l waiting))) \<and>
   AcceptRequest ParseVia (fst (snd (Close l waiting))) q =
     (Returned None None (Some ErrClosed), fst (snd (Close l waiting)), q)"
  using closed_Close AcceptRequest_closed by simp

text \<open>
  C9. \<open>Close\<close> calls \<open>Close\<close> on the TCP socket and on the UDP socket, whatever
  either call reports. It returns the TCP socket's error when there is one, and
  otherwise what the UDP socket reports.
\<close>

theorem Close_attempts_both:
  "close_calls (tcpListener (fst (snd (Close l waiting)))) = Suc (close_calls (tcpListener l)) \<and>
   close_calls (udpListener (fst (snd (Close l waiting)))) = Suc (close_calls (udpListener l)) \<and>
   fst (Close l waiting) =
     (case close_result (tcpListener l) (close_calls (tcpListener l)) of
        Some e \<Rightarrow> Some e
      | None \<Rightarrow> close_result (udpListener l) (close_calls (udpListener l)))"
  by (simp add: Close_def sock_Close_def Let_def split: prod.splits option.splits)

text \<open>
  C5, as the code has it. \<open>Close\<close> has no guard: called again, it sets the flag
  again, calls \<open>Close\<close> on both sockets again and returns what that second
  round of socket calls reports (the TCP socket's error, else the UDP socket's).
  It does not panic, and it leaves the branch map alone.
\<close>

theorem Close_twice:
  "closed (fst (snd (Close (fst (snd (Close l waiting))) waiting'))) \<and>
   close_calls (tcpListener (fst (snd (Close (fst (snd (Close l waiting))) waiting')))) =
     close_calls (tcpListener l) + 2 \<and>
   close_calls (udpListener (fst (snd (Close (fst (snd (Close l waiting))) waiting')))) =
     close_calls (udpListener l) + 2 \<and>
   fst (Close (fst (snd (Close l waiting))) waiting') =
     (case close_result (tcpListener l) (Suc (close_calls (tcpListener l))) of
        Some e \<Rightarrow> Some e
      | None \<Rightarrow> close_result (udpListener l) (Suc (close_calls (udpListener l)))) \<and>
   receivedBranches (fst (snd (Close (fst (snd (Close l waiting))) waiting'))) = receivedBranches l"
  by (simp add: Close_def sock_Close_def Let_def split: prod.splits option.splits)

text \<open>
  C5 fails as stated: on sockets of package net the first \<open>Close\<close> returns nil, the
  second one returns the error with which the TCP socket answers a repeated close,
  and each socket has received \<open>Close\<close> twice.
\<close>

theorem Close_twice_counterexample:
  "fst (Close ex_listener []) = None \<and>
   fst (Close (fst (snd (Close ex_listener []))) []) = Some (ErrOther ''use of closed network connection'') \<and>
   close_calls (tcpListener (fst (snd (Close (fst (snd (Close ex_listener []))) [])))) = 2 \<and>
   close_calls (udpListener (fst (snd (Close (fst (snd (Close ex_listener []))) [])))) = 2"
  by (simp add: Close_def sock_Close_def ex_listener_def ex_socket_def Let_def)

section \<open>Properties of Listen\<close>

text \<open>
  C4. A listener that \<open>Listen\<close> returns has nil \<open>udpPool\<close> and nil \<open>udpPoolMutex\<close>;
  \<open>Listen\<close> sets the two sockets, the flag, the channel, the branch map and the
  branch mutex only. The receive loop hands that very listener to the pool
  lookup for each datagram it reads.
\<close>

theorem Listen_leaves_pool_unset:
  "fst (Listen net_Listen net_ResolveUDPAddr net_ListenUDP) = Inr l \<Longrightarrow>
     udpPool l = None \<and> udpPoolMutex l = None \<and>
     net_Listen = Inr (tcpListener l) \<and> net_ListenUDP = Inr (udpListener l) \<and>
     closed l = False \<and> requestChannel l = Some Chan \<and>
     receivedBranches l = Map.empty \<and> branchMutex l = Some Mutex \<and>
     receiveLoop poolWrite receiver l (Inr d # rest) =
       (case poolWrite l (addr d) (take (n d) (data d)) of
          None \<Rightarrow> Some \<lparr>at_exit = l, sent = [], unread = rest, panicking = True\<rparr>
        | Some l' \<Rightarrow> receiveLoop poolWrite receiver l' rest)"
  by (auto simp: Listen_def split: sum.splits)

theorem Listen_leaves_pool_unset_witness:
  "fst (Listen (Inr ex_socket) (Inr ''127.0.0.1:5060'') (Inr ex_socket)) = Inr ex_listener \<and>
   udpPool ex_listener = None \<and> udpPoolMutex ex_listener = None"
proof -
  have h: "fst (Listen (Inr ex_socket) (Inr ''127.0.0.1:5060'') (Inr ex_socket)) = Inr ex_listener"
    by (simp add: Listen_def ex_listener_def)
  from Listen_leaves_pool_unset [OF h] h show ?thesis by simp
qed

section \<open>Properties of the transport loops\<close>

lemma Close_effect:
  "closed (fst (snd (Close l waiting))) \<and>
   close_calls (tcpListener (fst (snd (Close l waiting)))) = Suc (close_calls (tcpListener l)) \<and>
   close_calls (udpListener (fst (snd (Close l waiting)))) = Suc (close_calls (udpListener l))"
  by (simp add: Close_def sock_Close_def Let_def split: prod.splits)

lemma acceptLoop_failure:
  "registerAll registerTCPConn l cs = Some l' \<Longrightarrow>
   acceptLoop registerTCPConn receiver l (map Inr cs @ Inl e # rest) =
     (if closed l'
      then Some \<lparr>at_exit = l', sent = [], unread = rest, panicking = False\<rparr>
      else if receiver
      then Some \<lparr>at_exit = l', sent = [\<lparr>conn = None, req = None, err = Some e\<rparr>],
                  unread = rest, panicking = False\<rparr>
      else None)"
proof (induction cs arbitrary: l)
  case Nil
  then show ?case by simp
next
  case (Cons c cs)
  then show ?case by (cases "registerTCPConn l c") simp_all
qed

lemma receiveLoop_failure:
  "writeAll poolWrite l ds = Some l' \<Longrightarrow>
   receiveLoop poolWrite receiver l (map Inr ds @ Inl e # rest) =
     (if closed l'
      then Some \<lparr>at_exit = l', sent = [], unread = rest, panicking = False\<rparr>
      else if receiver
      then Some \<lparr>at_exit = l', sent = [\<lparr>conn = None, req = None, err = Some e\<rparr>],
                  unread = rest, panicking = False\<rparr>
      else None)"
proof (induction ds arbitrary: l)
  case Nil
  then show ?case by simp
next
  case (Cons d ds)
  then show ?case by (cases "poolWrite l (addr d) (take (n d) (data d))") simp_all
qed

text \<open>
  C7, as the code has it. When the loop of \<open>handleTCPListening\<close> or of
  \<open>handleUDPListening\<close> ends, by return or by panic, the handler ends with \<open>Close\<close>
  applied to the listener the loop ended with: the listener is closed and each of
  the two sockets, the other transport's too, has received one more \<open>Close\<close>.
  When the loop does not end, the handler does not end and \<open>Close\<close> is not
  applied. After a failure of \<open>Accept\<close> or \<open>ReadFrom\<close> the handler ends exactly
  when the listener was closed already or the error package is received.
\<close>

theorem loops_end_in_Close:
  "(acceptLoop registerTCPConn receiver l accepts = Some y \<longrightarrow>
      handleTCPListening registerTCPConn receiver l accepts waiting =
        Some (y\<lparr>at_exit := fst (snd (Close (at_exit y) waiting))\<rparr>) \<and>
      closed (fst (snd (Close (at_exit y) waiting))) \<and>
      close_calls (tcpListener (fst (snd (Close (at_exit y) waiting)))) =
        Suc (close_calls (tcpListener (at_exit y))) \<and>
      close_calls (udpListener (fst (snd (Close (at_exit y) waiting)))) =
        Suc (close_calls (udpListener (at_exit y)))) \<and>
   (acceptLoop registerTCPConn receiver l accepts = None \<longrightarrow>
      handleTCPListening registerTCPConn receiver l accepts waiting = None) \<and>
   (registerAll registerTCPConn l cs = Some l' \<longrightarrow>
      (handleTCPListening registerTCPConn receiver l (map Inr cs @ Inl e # rest) waiting \<noteq> None) =
        (closed l' \<or> receiver)) \<and>
   (receiveLoop poolWrite receiver l reads = Some z \<longrightarrow>
      handleUDPListening poolWrite receiver l reads waiting =
        Some (z\<lparr>at_exit := fst (snd (Close (at_exit z) waiting))\<rparr>) \<and>
      closed (fst (snd (Close (at_exit z) waiting))) \<and>
      close_calls (tcpListener (fst (snd (Close (at_exit z) waiting)))) =
        Suc (close_calls (tcpListener (at_exit z))) \<and>
      close_calls (udpListener (fst (snd (Close (at_exit z) waiting)))) =
        Suc (close_calls (udpListener (at_exit z)))) \<and>
   (receiveLoop poolWrite receiver l reads = None \<longrightarrow>
      handleUDPListening poolWrite receiver l reads waiting = None) \<and>
   (writeAll poolWrite l ds = Some l'' \<longrightarrow>
      (handleUDPListening poolWrite receiver l (map Inr ds @ Inl e' # rest') waiting \<noteq> None) =
        (closed l'' \<or> receiver))"
proof -
  have tcp: "registerAll registerTCPConn l cs = Some l' \<Longrightarrow>
      (handleTCPListening registerTCPConn receiver l (map Inr cs @ Inl e # rest) waiting \<noteq> None) =
        (closed l' \<or> receiver)"
    by (simp add: handleTCPListening_def acceptLoop_failure)
  have udp: "writeAll poolWrite l ds = Some l'' \<Longrightarrow>
      (handleUDPListening poolWrite receiver l (map Inr ds @ Inl e' # rest') waiting \<noteq> None) =
        (closed l'' \<or> receiver)"
    by (simp add: handleUDPListening_def receiveLoop_failure)
  show ?thesis
    using tcp udp Close_effect
    by (simp add: handleTCPListening_def handleUDPListening_def)
qed

theorem loops_end_in_Close_witness:
  "(case handleTCPListening (\<lambda>l c. Some l) True ex_listener
           [Inr 7, Inl (ErrOther ''accept: too many open files'')] [] of
      None \<Rightarrow> False
    | Some x \<Rightarrow> closed (at_exit x) \<and> close_calls (tcpListener (at_exit x)) = 1 \<and>
        close_calls (udpListener (at_exit x)) = 1 \<and> \<not> panicking x) \<and>
   (case handleTCPListening (\<lambda>l c. None) True ex_listener [Inr 7] [] of
      None \<Rightarrow> False
    | Some x \<Rightarrow> closed (at_exit x) \<and> close_calls (tcpListener (at_exit x)) = 1 \<and>
        close_calls (udpListener (at_exit x)) = 1 \<and> panicking x) \<and>
   (case handleUDPListening (\<lambda>l a bs. Some l) True ex_listener
           [Inr ex_datagram, Inl (ErrOther ''read: network is unreachable'')] [] of
      None \<Rightarrow> False
    | Some x \<Rightarrow> closed (at_exit x) \<and> close_calls (tcpListener (at_exit x)) = 1 \<and>
        close_calls (udpListener (at_exit x)) = 1 \<and> \<not> panicking x) \<and>
   (case handleUDPListening (\<lambda>l a bs. None) True ex_listener [Inr ex_datagram] [] of
      None \<Rightarrow> False
    | Some x \<Rightarrow> closed (at_exit x) \<and> close_calls (tcpListener (at_exit x)) = 1 \<and>
        close_calls (udpListener (at_exit x)) = 1 \<and> panicking x)"
proof -
  have o: "\<not> closed ex_listener" by (simp add: ex_listener_def)
  have n: "close_calls (tcpListener ex_listener) = 0" "close_calls (udpListener ex_listener) = 0"
    by (simp_all add: ex_listener_def ex_socket_def)
  have a1: "acceptLoop (\<lambda>l c. Some l) True ex_listener
        [Inr 7, Inl (ErrOther ''accept: too many open files'')] =
      Some \<lparr>at_exit = ex_listener,
        sent = [\<lparr>conn = None, req = None, err = Some (ErrOther ''accept: too many open files'')\<rparr>],
        unread = [], panicking = False\<rparr>"
    using o by simp
  have a2: "acceptLoop (\<lambda>l c. None) True ex_listener [Inr 7] =
      Some \<lparr>at_exit = ex_listener, sent = [], unread = [], panicking = True\<rparr>"
    by simp
  have r1: "receiveLoop (\<lambda>l a bs. Some l) True ex_listener
        [Inr ex_datagram, Inl (ErrOther ''read: network is unreachable'')] =
      Some \<lparr>at_exit = ex_listener,
        sent = [\<lparr>conn = None, req = None, err = Some (ErrOther ''read: network is unreachable'')\<rparr>],
        unread = [], panicking = False\<rparr>"
    using o by simp
  have r2: "receiveLoop (\<lambda>l a bs. None) True ex_listener [Inr ex_datagram] =
      Some \<lparr>at_exit = ex_listener, sent = [], unread = [], panicking = True\<rparr>"
    by simp
  note t1 = loops_end_in_Close [where waiting = "[]", THEN conjunct1, THEN mp, OF a1]
  note t2 = loops_end_in_Close [where waiting = "[]", THEN conjunct1, THEN mp, OF a2]
  note u1 = loops_end_in_Close [where waiting = "[]", THEN conjunct2, THEN conjunct2,
      THEN conjunct2, THEN conjunct1, THEN mp, OF r1]
  note u2 = loops_end_in_Close [where waiting = "[]", THEN conjunct2, THEN conjunct2,
      THEN conjunct2, THEN conjunct1, THEN mp, OF r2]
  from t1 t2 u1 u2 n show ?thesis by simp
qed

text \<open>
  C7 fails as stated: on an open listener whose error package nobody receives, a
  failure of \<open>Accept\<close>, or of \<open>ReadFrom\<close>, leaves the handler in the send for
  ever; \<open>Close\<close> is not called and the other transport stays up.
\<close>

theorem blocked_send_counterexample:
  "\<not> closed ex_listener \<and>
   handleTCPListening (\<lambda>l c. Some l) False ex_listener
      [Inr 7, Inl (ErrOther ''accept: too many open files'')] [] = None \<and>
   handleUDPListening (\<lambda>l a bs. Some l) False ex_listener
      [Inr ex_datagram, Inl (ErrOther ''read: network is unreachable'')] [] = None"
  by (simp add: handleTCPListening_def handleUDPListening_def ex_listener_def)

text \<open>
  C8, as the code has it. When \<open>Accept\<close> or \<open>ReadFrom\<close> fails, after any number of
  successful answers: on a closed listener the loop ends and has sent nothing;
  on an open one it sends one package, with nil connection, nil request and the
  error, and ends once that package is received; while nobody receives it the
  loop stays in the send. In each case the later answers of the socket stay
  unread and the listener is the one reached before the failure: no retry.
\<close>

theorem transport_failure_ends_loop:
  "(registerAll registerTCPConn l cs = Some l' \<longrightarrow>
      acceptLoop registerTCPConn receiver l (map Inr cs @ Inl e # rest) =
        (if closed l'
         then Some \<lparr>at_exit = l', sent = [], unread = rest, panicking = False\<rparr>
         else if receiver
         then Some \<lparr>at_exit = l', sent = [\<lparr>conn = None, req = None, err = Some e\<rparr>],
                     unread = rest, panicking = False\<rparr>
         else None)) \<and>
   (writeAll poolWrite l ds = Some l'' \<longrightarrow>
      receiveLoop poolWrite receiver l (map Inr ds @ Inl e' # rest') =
        (if closed l''
         then Some \<lparr>at_exit = l'', sent = [], unread = rest', panicking = False\<rparr>
         else if receiver
         then Some \<lparr>at_exit = l'', sent = [\<lparr>conn = None, req = None, err = Some e'\<rparr>],
                     unread = rest', panicking = False\<rparr>
         else None))"
  using acceptLoop_failure receiveLoop_failure by blast

theorem transport_failure_ends_loop_witness:
  "acceptLoop (\<lambda>l c. Some l) True ex_listener
      [Inr 4, Inr 9, Inl (ErrOther ''accept failed''), Inr 5, Inl (ErrOther ''again'')] =
     Some \<lparr>at_exit = ex_listener,
       sent = [\<lparr>conn = None, req = None, err = Some (ErrOther ''accept failed'')\<rparr>],
       unread = [Inr 5, Inl (ErrOther ''again'')], panicking = False\<rparr> \<and>
   receiveLoop (\<lambda>l a bs. Some l) True (ex_listener\<lparr>closed := True\<rparr>)
      [Inr ex_datagram, Inl (ErrOther ''read failed''), Inr ex_datagram] =
     Some \<lparr>at_exit = ex_listener\<lparr>closed := True\<rparr>, sent = [],
       unread = [Inr ex_datagram], panicking = False\<rparr>"
proof -
  have o: "\<not> closed ex_listener" by (simp add: ex_listener_def)
  have a: "registerAll (\<lambda>l c. Some l) ex_listener [4, 9] = Some ex_listener" by simp
  have w: "writeAll (\<lambda>l a bs. Some l) (ex_listener\<lparr>closed := True\<rparr>) [ex_datagram] =
      Some (ex_listener\<lparr>closed := True\<rparr>)" by simp
  note t = transport_failure_ends_loop [where receiver = True and e = "ErrOther ''accept failed''"
      and rest = "[Inr 5, Inl (ErrOther ''again'')]", THEN conjunct1, THEN mp, OF a]
  note u = transport_failure_ends_loop [where receiver = True and e' = "ErrOther ''read failed''"
      and rest' = "[Inr ex_datagram]", THEN conjunct2, THEN mp, OF w]
  from t u o show ?thesis by simp
qed

text \<open>
  C8 fails as stated: on an open listener whose error package nobody receives,
  the loop does not end after the failure.
\<close>

theorem unreceived_error_counterexample:
  "\<not> closed ex_listener \<and>
   acceptLoop (\<lambda>l c. Some l) False ex_listener [Inl (ErrOther ''accept failed''), Inr 4] = None \<and>
   receiveLoop (\<lambda>l a bs. Some l) False ex_listener [Inl (ErrOther ''read failed'')] = None"
  by (simp add: ex_listener_def)

section \<open>Properties of AcceptRequest and the branch cache\<close>

lemma Sub_mono: "t \<le> t' \<Longrightarrow> Sub t u \<le> Sub t' u"
  by (simp add: Sub_def maxDuration_def minDuration_def)

lemma AcceptRequest_suppress:
  "\<not> closed l \<Longrightarrow> branchMutex l = Some m \<Longrightarrow> branchOf ParseVia a = Some b \<Longrightarrow>
   receivedBranches l b = Some t \<Longrightarrow>
   AcceptRequest ParseVia l (a # q) = AcceptRequest ParseVia l q"
  by (auto simp: branchOf_def Let_def split: option.splits sum.splits if_splits)

lemma AcceptRequest_deliver:
  "\<not> closed l \<Longrightarrow> branchMutex l = Some m \<Longrightarrow> branchOf ParseVia a = Some b \<Longrightarrow>
   receivedBranches l b = None \<Longrightarrow>
   AcceptRequest ParseVia l (a # q) =
     (Returned (req (pkg a)) (conn (pkg a)) None,
      l\<lparr>receivedBranches := (receivedBranches l)(b \<mapsto> now a)\<rparr>, q)"
  by (auto simp: branchOf_def Let_def split: option.splits sum.splits if_splits)

lemma branchJanitor_open:
  "\<not> closed l \<Longrightarrow> branchMutex l = Some m \<Longrightarrow>
   branchJanitor l wakes =
     (l\<lparr>receivedBranches := foldl (\<lambda>m clock. sweep clock m) (receivedBranches l) wakes\<rparr>, Asleep)"
  by (induction wakes arbitrary: l) simp_all

lemma sweeps_gone: "m b = None \<Longrightarrow> foldl (\<lambda>m clock. sweep clock m) m wakes b = None"
  by (induction wakes arbitrary: m) (simp_all add: sweep_def)

lemma sweeps_keep:
  "m b = Some t \<Longrightarrow> \<forall>clock \<in> set wakes. Sub (clock b) t \<le> 30 * Second \<Longrightarrow>
   foldl (\<lambda>m clock. sweep clock m) m wakes b = Some t"
  by (induction wakes arbitrary: m) (simp_all add: sweep_def)

lemma sweeps_drop:
  "m b = Some t \<Longrightarrow> \<exists>clock \<in> set wakes. Sub (clock b) t > 30 * Second \<Longrightarrow>
   foldl (\<lambda>m clock. sweep clock m) m wakes b = None"
proof (induction wakes arbitrary: m)
  case Nil
  then show ?case by simp
next
  case (Cons c wakes)
  show ?case
  proof (cases "Sub (c b) t > 30 * Second")
    case True
    with Cons.prems have "sweep c m b = None" by (simp add: sweep_def)
    then show ?thesis by (simp add: sweeps_gone)
  next
    case False
    with Cons.prems have "sweep c m b = Some t" "\<exists>clock \<in> set wakes. Sub (clock b) t > 30 * Second"
      by (auto simp: sweep_def)
    then show ?thesis using Cons.IH by simp
  qed
qed

lemma ex_branch:
  "branchOf ex_ParseVia (ex_arrival t c ex_via) = Some ''z9hG4bK-abc123''"
  by (simp add: branchOf_def ex_ParseVia_def ParseVia_spec_def ex_grammar_def ex_arrival_def
      ex_request_def ex_via_def Get_def invalidBranch_def)

lemma ex_listener_open:
  "\<not> closed ex_listener" "branchMutex ex_listener = Some Mutex"
  "receivedBranches ex_listener b = None"
  by (simp_all add: ex_listener_def)

lemma ex_seen_open:
  "\<not> closed (ex_seen t)" "branchMutex (ex_seen t) = Some Mutex"
  "receivedBranches (ex_seen t) ''z9hG4bK-abc123'' = Some t"
  by (simp_all add: ex_seen_def ex_listener_def)

lemma ex_arrival_sel:
  "now (ex_arrival t c v) = t" "req (pkg (ex_arrival t c v)) = Some (ex_request v)"
  "conn (pkg (ex_arrival t c v)) = Some c" "err (pkg (ex_arrival t c v)) = None"
  by (simp_all add: ex_arrival_def)



text \<open>
  C1. A request with a valid branch not yet in the map is returned by
  \<open>AcceptRequest\<close> and its branch recorded. When a request with the same branch is
  received at most 30 seconds later, whatever passes the janitor has made up to
  then, the entry is still there with its first timestamp, and \<open>AcceptRequest\<close>
  drops the second request inside its loop: it goes on with the next item, and
  blocks when there is none. The request has been returned once.
\<close>

theorem retransmission_delivered_once:
  assumes "\<not> closed l" and "branchMutex l = Some m"
    and "branchOf ParseVia a1 = Some b" and "branchOf ParseVia a2 = Some b"
    and "receivedBranches l b = None"
    and "Sub (now a2) (now a1) \<le> 30 * Second"
    and "\<forall>clock \<in> set wakes. clock b \<le> now a2"
    and "l1 = l\<lparr>receivedBranches := (receivedBranches l)(b \<mapsto> now a1)\<rparr>"
    and "l2 = fst (branchJanitor l1 wakes)"
  shows "AcceptRequest ParseVia l (a1 # q1) = (Returned (req (pkg a1)) (conn (pkg a1)) None, l1, q1) \<and>
         receivedBranches l2 b = Some (now a1) \<and>
         AcceptRequest ParseVia l2 (a2 # q2) = AcceptRequest ParseVia l2 q2 \<and>
         AcceptRequest ParseVia l2 [a2] = (Blocked, l2, [])"
proof -
  have first: "AcceptRequest ParseVia l (a1 # q1) = (Returned (req (pkg a1)) (conn (pkg a1)) None, l1, q1)"
    unfolding assms(8) using assms(1,2,3,5) by (rule AcceptRequest_deliver)
  have open1: "\<not> closed l1" "branchMutex l1 = Some m"
    using assms(1,2,8) by simp_all
  have l2: "l2 = l1\<lparr>receivedBranches :=
      foldl (\<lambda>m clock. sweep clock m) (receivedBranches l1) wakes\<rparr>"
    using assms(9) open1 by (simp add: branchJanitor_open)
  have young: "\<forall>clock \<in> set wakes. Sub (clock b) (now a1) \<le> 30 * Second"
  proof
    fix clock assume "clock \<in> set wakes"
    with assms(7) have "clock b \<le> now a2" by simp
    then have "Sub (clock b) (now a1) \<le> Sub (now a2) (now a1)" by (rule Sub_mono)
    with assms(6) show "Sub (clock b) (now a1) \<le> 30 * Second" by simp
  qed
  have "receivedBranches l1 b = Some (now a1)" using assms(8) by simp
  then have kept: "receivedBranches l2 b = Some (now a1)"
    using young l2 by (simp add: sweeps_keep)
  have open2: "\<not> closed l2" "branchMutex l2 = Some m"
    using open1 l2 by simp_all
  have skip: "AcceptRequest ParseVia l2 (a2 # q) = AcceptRequest ParseVia l2 q" for q
    using open2 assms(4) kept by (rule AcceptRequest_suppress)
  have "AcceptRequest ParseVia l2 [a2] = (Blocked, l2, [])"
    using skip [of "[]"] open2 by simp
  with first kept skip show ?thesis by simp
qed

theorem retransmission_delivered_once_witness:
  "Sub (20 * Second) 0 \<le> 30 * Second \<and>
   AcceptRequest ex_ParseVia ex_listener [ex_arrival 0 1 ex_via] =
     (Returned (Some (ex_request ex_via)) (Some 1) None, ex_seen 0, []) \<and>
   fst (AcceptRequest ex_ParseVia (fst (branchJanitor (ex_seen 0) (ex_wakes [10, 20])))
          [ex_arrival (20 * Second) 1 ex_via]) = Blocked"
proof -
  have win: "Sub (now (ex_arrival (20 * Second) 1 ex_via)) (now (ex_arrival 0 1 ex_via)) \<le> 30 * Second"
    by (simp add: ex_arrival_def Sub_def Second_def maxDuration_def minDuration_def)
  have wk: "\<forall>clock \<in> set (ex_wakes [10, 20]).
      clock ''z9hG4bK-abc123'' \<le> now (ex_arrival (20 * Second) 1 ex_via)"
    by (simp add: ex_wakes_def ex_arrival_def Second_def)
  have l1: "ex_seen 0 = ex_listener\<lparr>receivedBranches :=
      (receivedBranches ex_listener)(''z9hG4bK-abc123'' \<mapsto> now (ex_arrival 0 1 ex_via))\<rparr>"
    by (simp add: ex_seen_def ex_arrival_def)
  note th = retransmission_delivered_once [OF ex_listener_open(1,2) ex_branch ex_branch
      ex_listener_open(3) win wk l1 refl, where ?q1.0 = "[]" and ?q2.0 = "[]"]
  from th [THEN conjunct1] th [THEN conjunct2, THEN conjunct2, THEN conjunct2] win
  show ?thesis by (simp add: ex_arrival_sel del: AcceptRequest.simps)
qed

text \<open>
  C2, as the code has it. \<open>AcceptRequest\<close> never looks at the age of an entry;
  only a pass of the janitor removes it. When some pass between the two arrivals
  reads, at that branch, a clock more than 30 seconds after the recorded time, the
  entry is gone and the second request is returned too, and recorded anew.
\<close>

theorem swept_branch_delivered_again:
  assumes "\<not> closed l" and "branchMutex l = Some m"
    and "branchOf ParseVia a1 = Some b" and "branchOf ParseVia a2 = Some b"
    and "receivedBranches l b = None"
    and "\<exists>clock \<in> set wakes. Sub (clock b) (now a1) > 30 * Second"
    and "l1 = l\<lparr>receivedBranches := (receivedBranches l)(b \<mapsto> now a1)\<rparr>"
    and "l2 = fst (branchJanitor l1 wakes)"
  shows "AcceptRequest ParseVia l (a1 # q1) = (Returned (req (pkg a1)) (conn (pkg a1)) None, l1, q1) \<and>
         receivedBranches l2 b = None \<and>
         AcceptRequest ParseVia l2 (a2 # q2) =
           (Returned (req (pkg a2)) (conn (pkg a2)) None,
            l2\<lparr>receivedBranches := (receivedBranches l2)(b \<mapsto> now a2)\<rparr>, q2)"
proof -
  have first: "AcceptRequest ParseVia l (a1 # q1) = (Returned (req (pkg a1)) (conn (pkg a1)) None, l1, q1)"
    unfolding assms(7) using assms(1,2,3,5) by (rule AcceptRequest_deliver)
  have open1: "\<not> closed l1" "branchMutex l1 = Some m"
    using assms(1,2,7) by simp_all
  have l2: "l2 = l1\<lparr>receivedBranches :=
      foldl (\<lambda>m clock. sweep clock m) (receivedBranches l1) wakes\<rparr>"
    using assms(8) open1 by (simp add: branchJanitor_open)
  have "receivedBranches l1 b = Some (now a1)" using assms(7) by simp
  then have gone: "receivedBranches l2 b = None"
    using assms(6) l2 by (simp add: sweeps_drop)
  have open2: "\<not> closed l2" "branchMutex l2 = Some m"
    using open1 l2 by simp_all
  have "AcceptRequest ParseVia l2 (a2 # q2) =
           (Returned (req (pkg a2)) (conn (pkg a2)) None,
            l2\<lparr>receivedBranches := (receivedBranches l2)(b \<mapsto> now a2)\<rparr>, q2)"
    using open2 assms(4) gone by (rule AcceptRequest_deliver)
  with first gone show ?thesis by simp
qed

theorem swept_branch_delivered_again_witness:
  "Sub (40 * Second) (5 * Second) > 30 * Second \<and>
   AcceptRequest ex_ParseVia ex_listener [ex_arrival (5 * Second) 1 ex_via] =
     (Returned (Some (ex_request ex_via)) (Some 1) None, ex_seen (5 * Second), []) \<and>
   fst (AcceptRequest ex_ParseVia (fst (branchJanitor (ex_seen (5 * Second)) (ex_wakes [10, 20, 30, 40])))
          [ex_arrival (41 * Second) 1 ex_via]) = Returned (Some (ex_request ex_via)) (Some 1) None"
proof -
  have old: "Sub (40 * Second) (5 * Second) > 30 * Second"
    by (simp add: Sub_def Second_def maxDuration_def minDuration_def)
  then have wk: "\<exists>clock \<in> set (ex_wakes [10, 20, 30, 40]).
      Sub (clock ''z9hG4bK-abc123'') (now (ex_arrival (5 * Second) 1 ex_via)) > 30 * Second"
    by (simp add: ex_wakes_def ex_arrival_def)
  have l1: "ex_seen (5 * Second) = ex_listener\<lparr>receivedBranches :=
      (receivedBranches ex_listener)(''z9hG4bK-abc123'' \<mapsto> now (ex_arrival (5 * Second) 1 ex_via))\<rparr>"
    by (simp add: ex_seen_def ex_arrival_def)
  note th = swept_branch_delivered_again [OF ex_listener_open(1,2) ex_branch ex_branch
      ex_listener_open(3) wk l1 refl, where ?q1.0 = "[]" and ?q2.0 = "[]"]
  from th [THEN conjunct1] th [THEN conjunct2, THEN conjunct2] old
  show ?thesis by (simp add: ex_arrival_sel del: AcceptRequest.simps)
qed

text \<open>
  C2 fails as stated: a request recorded at second 5 survives the passes at
  seconds 10, 20 and 30, and its retransmission at second 36, 31 seconds after the
  first arrival, is dropped.
\<close>

theorem stale_entry_suppresses_counterexample:
  "Sub (36 * Second) (5 * Second) > 30 * Second \<and>
   AcceptRequest ex_ParseVia ex_listener [ex_arrival (5 * Second) 1 ex_via] =
     (Returned (Some (ex_request ex_via)) (Some 1) None, ex_seen (5 * Second), []) \<and>
   fst (AcceptRequest ex_ParseVia (fst (branchJanitor (ex_seen (5 * Second)) (ex_wakes [10, 20, 30])))
          [ex_arrival (36 * Second) 1 ex_via]) = Blocked"
proof -
  have old: "Sub (36 * Second) (5 * Second) > 30 * Second"
    by (simp add: Sub_def Second_def maxDuration_def minDuration_def)
  have l1: "ex_seen (5 * Second) = ex_listener\<lparr>receivedBranches :=
      (receivedBranches ex_listener)(''z9hG4bK-abc123'' \<mapsto> now (ex_arrival (5 * Second) 1 ex_via))\<rparr>"
    by (simp add: ex_seen_def ex_arrival_def)
  have first: "AcceptRequest ex_ParseVia ex_listener [ex_arrival (5 * Second) 1 ex_via] =
     (Returned (req (pkg (ex_arrival (5 * Second) 1 ex_via))) (conn (pkg (ex_arrival (5 * Second) 1 ex_via))) None, ex_seen (5 * Second), [])"
    unfolding l1 using ex_listener_open(1,2) ex_branch ex_listener_open(3)
    by (rule AcceptRequest_deliver)
  have young: "\<forall>clock \<in> set (ex_wakes [10, 20, 30]). Sub (clock ''z9hG4bK-abc123'') (5 * Second) \<le> 30 * Second"
    by (simp add: ex_wakes_def Sub_def Second_def maxDuration_def minDuration_def)
  define l2 where "l2 = fst (branchJanitor (ex_seen (5 * Second)) (ex_wakes [10, 20, 30]))"
  have l2: "l2 = (ex_seen (5 * Second))\<lparr>receivedBranches :=
      foldl (\<lambda>m clock. sweep clock m) (receivedBranches (ex_seen (5 * Second))) (ex_wakes [10, 20, 30])\<rparr>"
    unfolding l2_def using ex_seen_open(1,2) by (simp add: branchJanitor_open)
  have kept: "receivedBranches l2 ''z9hG4bK-abc123'' = Some (5 * Second)"
    using ex_seen_open(3) young l2 by (simp add: sweeps_keep)
  have open2: "\<not> closed l2" "branchMutex l2 = Some Mutex"
    using ex_seen_open(1,2) l2 by simp_all
  have "AcceptRequest ex_ParseVia l2 [ex_arrival (36 * Second) 1 ex_via] = AcceptRequest ex_ParseVia l2 []"
    using open2 ex_branch kept by (rule AcceptRequest_suppress)
  then have "fst (AcceptRequest ex_ParseVia l2 [ex_arrival (36 * Second) 1 ex_via]) = Blocked"
    using open2 by simp
  with first old show ?thesis by (simp add: l2_def ex_arrival_sel del: AcceptRequest.simps)
qed

text \<open>
  C10. While a branch is in the map, every request carrying it is dropped and the
  listener stays exactly as it was: the map is not written, the timestamp of the
  branch is the one of its first delivery, however many retransmissions come.
\<close>

theorem retransmissions_leave_cache:
  assumes "\<not> closed l" and "branchMutex l = Some m"
    and "receivedBranches l b = Some t"
    and "\<forall>a \<in> set dups. branchOf ParseVia a = Some b"
  shows "AcceptRequest ParseVia l (dups @ q) = AcceptRequest ParseVia l q \<and>
         AcceptRequest ParseVia l dups = (Blocked, l, [])"
proof -
  have skip: "AcceptRequest ParseVia l (dups @ q) = AcceptRequest ParseVia l q" for q
    using assms(4)
  proof (induction dups)
    case Nil
    then show ?case by simp
  next
    case (Cons a dups)
    then have a: "branchOf ParseVia a = Some b" by simp
    have "AcceptRequest ParseVia l (a # dups @ q) = AcceptRequest ParseVia l (dups @ q)"
      using assms(1,2) a assms(3) by (rule AcceptRequest_suppress)
    with Cons show ?case by (simp del: AcceptRequest.simps)
  qed
  from skip [of "[]"] assms(1) have "AcceptRequest ParseVia l dups = (Blocked, l, [])" by simp
  with skip show ?thesis by simp
qed

theorem retransmissions_leave_cache_witness:
  "AcceptRequest ex_ParseVia (ex_seen 0)
      [ex_arrival Second 1 ex_via, ex_arrival (2 * Second) 1 ex_via, ex_arrival (29 * Second) 1 ex_via] =
     (Blocked, ex_seen 0, []) \<and>
   receivedBranches (ex_seen 0) ''z9hG4bK-abc123'' = Some 0"
proof -
  have d: "\<forall>a \<in> set [ex_arrival Second 1 ex_via, ex_arrival (2 * Second) 1 ex_via,
        ex_arrival (29 * Second) 1 ex_via].
      branchOf ex_ParseVia a = Some ''z9hG4bK-abc123''"
    by (simp add: ex_branch)
  from retransmissions_leave_cache [OF ex_seen_open(1,2,3) d, of 0, THEN conjunct2]
    ex_seen_open(3) [of 0]
  show ?thesis by (simp del: AcceptRequest.simps)
qed

end
